theory Spec2Isabelle
  imports Complex_Main "HOL-Library.Multiset"
begin

section \<open>Python strings\<close>

text \<open>
  A Python \<open>str\<close> is a sequence of Unicode code points, modelled as a list of natural
  numbers. String literals of the source are ASCII and are written with \<open>ascii\<close>.
\<close>

type_synonym pystr = "nat list"

definition ascii :: "string \<Rightarrow> pystr" where
  "ascii s = map of_char s"

definition is_ascii :: "pystr \<Rightarrow> bool" where
  "is_ascii s = list_all (\<lambda>c. c < 128) s"

text \<open>
  \<open>str.lower\<close> applies the case mapping of the Unicode character database, which is not
  part of the repository. It is a parameter \<open>L\<close> of every function that lowercases.
  Where a concrete result is computed, the one fact used about it is \<open>lower_on_ascii\<close>:
  on a string of ASCII characters it turns \<open>A\<close>..\<open>Z\<close> into \<open>a\<close>..\<open>z\<close> and
  changes nothing else.
\<close>

definition ascii_lower_cp :: "nat \<Rightarrow> nat" where
  "ascii_lower_cp c = (if 65 \<le> c \<and> c \<le> 90 then c + 32 else c)"

definition lower_on_ascii :: "(pystr \<Rightarrow> pystr) \<Rightarrow> bool" where
  "lower_on_ascii L = (\<forall>s. is_ascii s \<longrightarrow> L s = map ascii_lower_cp s)"

text \<open>
  One lowercasing function that satisfies \<open>lower_on_ascii\<close>. Beyond ASCII it knows two
  mappings of the Unicode database: the Kelvin sign U+212A becomes \<open>k\<close>, and the
  dotted capital I U+0130 becomes \<open>i\<close> followed by the combining dot U+0307.
\<close>

definition sample_lower_cp :: "nat \<Rightarrow> pystr" where
  "sample_lower_cp c =
     (if 65 \<le> c \<and> c \<le> 90 then [c + 32]
      else if c = 8490 then [107]
      else if c = 304 then [105, 775]
      else [c])"

definition sample_lower :: "pystr \<Rightarrow> pystr" where
  "sample_lower s = concat (map sample_lower_cp s)"

text \<open>\<open>s.startswith(p)\<close>.\<close>

definition startswith :: "'a list \<Rightarrow> 'a list \<Rightarrow> bool" where
  "startswith s p = (take (length p) s = p)"

text \<open>
  \<open>s.rsplit(sep, 1)\<close> for a one-character separator: split once, at the last
  occurrence of the separator; a string without it comes back whole.
\<close>

definition rsplit1 :: "'a list \<Rightarrow> 'a \<Rightarrow> 'a list list" where
  "rsplit1 s sep =
     (if sep \<in> set s
      then (let r = rev s; t = takeWhile (\<lambda>c. c \<noteq> sep) r
            in [rev (drop (Suc (length t)) r), rev t])
      else [s])"

section \<open>Helpers\<close>

subsection \<open>\<open>classify_file\<close>\<close>

text \<open>
  \<open>mime_type\<close> and \<open>file_name\<close> are \<open>Optional[str]\<close>; the tests \<open>if mime_type:\<close> and
  \<open>if file_name:\<close> are false for \<open>None\<close> and for the empty string.
\<close>

definition truthy_str :: "pystr option \<Rightarrow> bool" where
  "truthy_str v = (case v of None \<Rightarrow> False | Some s \<Rightarrow> s \<noteq> [])"

definition image_exts :: "pystr list" where
  "image_exts = map ascii
     [''jpg'', ''jpeg'', ''png'', ''gif'', ''bmp'', ''webp'', ''svg'', ''tiff'']"

definition media_exts :: "pystr list" where
  "media_exts = map ascii
     [''mp4'', ''mov'', ''avi'', ''mkv'', ''mp3'', ''ogg'', ''wav'', ''flac'', ''aac'']"

definition dot :: nat where
  "dot = of_char (CHR ''.'')"

definition file_ext :: "(pystr \<Rightarrow> pystr) \<Rightarrow> pystr \<Rightarrow> pystr" where
  "file_ext L file_name =
     (if dot \<in> set file_name then L (last (rsplit1 file_name dot)) else [])"

definition classify_by_name :: "(pystr \<Rightarrow> pystr) \<Rightarrow> pystr option \<Rightarrow> pystr" where
  "classify_by_name L file_name =
     (if truthy_str file_name then
        (let ext = file_ext L (the file_name) in
         if ext \<in> set image_exts then ascii ''image''
         else if ext \<in> set media_exts then ascii ''media''
         else ascii ''document'')
      else ascii ''document'')"

definition classify_file :: "(pystr \<Rightarrow> pystr) \<Rightarrow> pystr option \<Rightarrow> pystr option \<Rightarrow> pystr" where
  "classify_file L mime_type file_name =
     (if truthy_str mime_type then
        (if startswith (the mime_type) (ascii ''image'') then ascii ''image''
         else if startswith (the mime_type) (ascii ''video'')
                 \<or> startswith (the mime_type) (ascii ''audio'')
           then ascii ''media''
         else classify_by_name L file_name)
      else classify_by_name L file_name)"

subsection \<open>The classifier of the specification\<close>

text \<open>
  Written from the specification alone: a category type with three values, the six
  numbered steps with the first match winning, an absent hint matching nothing, the
  extension as the lowercased text after the last dot (empty without a dot), and the two
  extension sets as the specification lists them.
\<close>

datatype category = Image | Media | Document

fun category_name :: "category \<Rightarrow> pystr" where
  "category_name Image = map of_char ''image''"
| "category_name Media = map of_char ''media''"
| "category_name Document = map of_char ''document''"

fun begins_with :: "pystr \<Rightarrow> string \<Rightarrow> bool" where
  "begins_with s [] = True"
| "begins_with [] (c # p) = False"
| "begins_with (x # s) (c # p) = (x = of_char c \<and> begins_with s p)"

definition hint_begins :: "pystr option \<Rightarrow> string \<Rightarrow> bool" where
  "hint_begins v p = (case v of None \<Rightarrow> False | Some s \<Rightarrow> begins_with s p)"

fun after_last_dot :: "pystr \<Rightarrow> pystr option" where
  "after_last_dot [] = None"
| "after_last_dot (c # s) =
     (case after_last_dot s of
        Some t \<Rightarrow> Some t
      | None \<Rightarrow> if c = 46 then Some s else None)"

definition spec_extension :: "(pystr \<Rightarrow> pystr) \<Rightarrow> pystr option \<Rightarrow> pystr" where
  "spec_extension L file_name =
     (case file_name of
        None \<Rightarrow> []
      | Some n \<Rightarrow> (case after_last_dot n of None \<Rightarrow> [] | Some t \<Rightarrow> L t))"

definition spec_image_extensions :: "pystr set" where
  "spec_image_extensions = (map of_char) `
     {''jpg'', ''jpeg'', ''png'', ''gif'', ''bmp'', ''webp'', ''svg'', ''tiff''}"

definition spec_media_extensions :: "pystr set" where
  "spec_media_extensions = (map of_char) `
     {''mp4'', ''mov'', ''avi'', ''mkv'', ''mp3'', ''ogg'', ''wav'', ''flac'', ''aac''}"

definition classify_spec :: "(pystr \<Rightarrow> pystr) \<Rightarrow> pystr option \<Rightarrow> pystr option \<Rightarrow> category" where
  "classify_spec L mime_type file_name =
     (if hint_begins mime_type ''image'' then Image
      else if hint_begins mime_type ''video'' \<or> hint_begins mime_type ''audio'' then Media
      else if spec_extension L file_name \<in> spec_image_extensions then Image
      else if spec_extension L file_name \<in> spec_media_extensions then Media
      else Document)"

subsection \<open>\<open>format_size\<close>\<close>








subsection \<open>The formatter of the specification\<close>







section \<open>Telegram bot handlers\<close>

subsection \<open>Inbound messages\<close>







subsection \<open>The metadata record and the store\<close>











subsection \<open>The payloads of the specification\<close>










section \<open>Properties of the classifier\<close>

lemma lower_on_asciiD: "lower_on_ascii L \<Longrightarrow> is_ascii s \<Longrightarrow> L s = map ascii_lower_cp s"
  by (simp add: lower_on_ascii_def)

lemma sample_lower_on_ascii: "lower_on_ascii sample_lower"
proof -
  have "is_ascii s \<Longrightarrow> sample_lower s = map ascii_lower_cp s" for s
    by (induction s)
      (simp_all add: sample_lower_def sample_lower_cp_def ascii_lower_cp_def is_ascii_def)
  then show ?thesis by (simp add: lower_on_ascii_def)
qed

lemma begins_with_startswith: "begins_with s p \<longleftrightarrow> startswith s (ascii p)"
  by (induction s p rule: begins_with.induct) (auto simp: startswith_def ascii_def)

lemma hint_begins_code:
  "p \<noteq> [] \<Longrightarrow> hint_begins v p \<longleftrightarrow> truthy_str v \<and> startswith (the v) (ascii p)"
  by (cases v)
    (auto simp: hint_begins_def truthy_str_def begins_with_startswith startswith_def ascii_def)

lemma after_last_dot_None: "after_last_dot s = None \<longleftrightarrow> 46 \<notin> set s"
  by (induction s) (auto split: option.splits)

lemma after_last_dot_append:
  assumes "46 \<notin> set t"
  shows "after_last_dot (p @ 46 # t) = Some t"
proof -
  from assms have "after_last_dot t = None" by (simp add: after_last_dot_None)
  then show ?thesis by (induction p) simp_all
qed

lemma last_rsplit1:
  assumes "sep \<in> set s"
  shows "\<exists>p t. s = p @ sep # t \<and> sep \<notin> set t \<and> last (rsplit1 s sep) = t"
proof -
  from assms have "sep \<in> set (rev s)" by simp
  then obtain ys zs where r: "rev s = ys @ sep # zs" and ys: "sep \<notin> set ys"
    by (meson split_list_first)
  have "\<And>x. x \<in> set ys \<Longrightarrow> x \<noteq> sep"
    using ys by auto
  then have "takeWhile (\<lambda>c. c \<noteq> sep) (ys @ sep # zs) = ys @ takeWhile (\<lambda>c. c \<noteq> sep) (sep # zs)"
    by (rule takeWhile_append2)
  then have tw: "takeWhile (\<lambda>c. c \<noteq> sep) (rev s) = ys"
    using r by simp
  have "s = rev zs @ sep # rev ys"
    using r by (metis rev_append rev.simps(2) rev_rev_ident append.assoc append_Cons append_Nil)
  moreover have "sep \<notin> set (rev ys)" using ys by simp
  moreover have "last (rsplit1 s sep) = rev ys"
    using assms tw by (simp add: rsplit1_def Let_def)
  ultimately show ?thesis by blast
qed

lemma dot_46: "dot = 46"
  by (simp add: dot_def)

lemma file_ext_spec: "file_ext L n = spec_extension L (Some n)"
proof (cases "(46::nat) \<in> set n")
  case True
  from last_rsplit1 [OF True] obtain p t
    where n: "n = p @ 46 # t" and t: "46 \<notin> set t" and l: "last (rsplit1 n 46) = t"
    by (elim exE conjE)
  have "after_last_dot n = Some t"
    unfolding n using t by (rule after_last_dot_append)
  then show ?thesis
    using True l by (simp add: file_ext_def spec_extension_def dot_46)
next
  case False
  then have "after_last_dot n = None" by (simp add: after_last_dot_None)
  then show ?thesis using False by (simp add: file_ext_def spec_extension_def dot_46)
qed

lemma image_exts_spec: "set image_exts = spec_image_extensions"
  by (simp add: image_exts_def spec_image_extensions_def ascii_def)

lemma media_exts_spec: "set media_exts = spec_media_extensions"
  by (simp add: media_exts_def spec_media_extensions_def ascii_def)

lemma category_name_ascii:
  "ascii ''image'' = category_name Image"
  "ascii ''media'' = category_name Media"
  "ascii ''document'' = category_name Document"
  by (simp_all add: ascii_def)

lemma nil_not_ext: "[] \<notin> spec_image_extensions" "[] \<notin> spec_media_extensions"
  by (simp_all add: spec_image_extensions_def spec_media_extensions_def)

lemma classify_by_name_spec:
  "classify_by_name L file_name =
     category_name
       (if spec_extension L file_name \<in> spec_image_extensions then Image
        else if spec_extension L file_name \<in> spec_media_extensions then Media
        else Document)"
proof (cases "truthy_str file_name")
  case True
  then obtain n where n: "file_name = Some n"
    by (cases file_name) (auto simp: truthy_str_def)
  show ?thesis
    unfolding classify_by_name_def Let_def n category_name_ascii
    using True
    by (simp add: n file_ext_spec image_exts_spec media_exts_spec del: category_name.simps)
next
  case False
  then have "spec_extension L file_name = []"
    by (cases file_name) (auto simp: truthy_str_def spec_extension_def)
  then show ?thesis
    unfolding classify_by_name_def category_name_ascii
    using False nil_not_ext
    by (simp del: category_name.simps)
qed

lemma classify_file_spec:
  "classify_file L mime_type file_name = category_name (classify_spec L mime_type file_name)"
proof -
  have names: "category_name Image = ascii ''image''" "category_name Media = ascii ''media''"
    by (simp_all add: ascii_def)
  show ?thesis
  proof (cases "hint_begins mime_type ''image''")
    case True
    then show ?thesis
      by (simp add: classify_file_def classify_spec_def names hint_begins_code
          del: category_name.simps)
  next
    case False
    note not_image = this
    show ?thesis
    proof (cases "hint_begins mime_type ''video'' \<or> hint_begins mime_type ''audio''")
      case True
      with not_image show ?thesis
        by (auto simp add: classify_file_def classify_spec_def names hint_begins_code
            simp del: category_name.simps)
    next
      case False
      with not_image show ?thesis
        by (auto simp add: classify_file_def classify_spec_def hint_begins_code
            classify_by_name_spec simp del: category_name.simps)
    qed
  qed
qed

lemmas classify_defs = classify_file_def classify_by_name_def truthy_str_def startswith_def
  file_ext_def rsplit1_def image_exts_def media_exts_def dot_def Let_def
  ascii_def is_ascii_def ascii_lower_cp_def

text \<open>
  Claim C4. \<open>classify_file\<close> is total over every combination of optional mime type and
  optional file name: its result is always the name of the category that the
  specification's first-match rule selects (mime prefix \<open>image\<close>; mime prefix \<open>video\<close> or
  \<open>audio\<close>; the lowercased text after the last dot of the file name, empty without a dot,
  looked up in the two extension sets; otherwise \<open>document\<close>), hence one of \<open>image\<close>,
  \<open>media\<close>, \<open>document\<close>. This holds for every lowercasing function. For a lowercasing
  function that is the ASCII one on ASCII strings, the four examples of the specification
  evaluate as it says, and further examples reach each step of the rule.
\<close>

theorem classify_file_total_first_match:
  "classify_file L mime_type file_name = category_name (classify_spec L mime_type file_name)
   \<and> classify_file L mime_type file_name \<in> {ascii ''image'', ascii ''media'', ascii ''document''}
   \<and> (lower_on_ascii L \<longrightarrow>
        classify_file L (Some (ascii ''image/png'')) None = ascii ''image''
      \<and> classify_file L None (Some (ascii ''movie.MKV'')) = ascii ''media''
      \<and> classify_file L None (Some (ascii ''readme'')) = ascii ''document''
      \<and> classify_file L (Some (ascii ''application/zip'')) (Some (ascii ''archive.zip''))
          = ascii ''document''
      \<and> classify_file L None (Some (ascii ''a.png'')) = ascii ''image''
      \<and> classify_file L (Some (ascii ''application/octet-stream'')) (Some (ascii ''holiday.JPEG''))
          = ascii ''image''
      \<and> classify_file L (Some (ascii ''video/mp4'')) (Some (ascii ''a.png'')) = ascii ''media''
      \<and> classify_file L (Some (ascii ''audio/ogg'')) None = ascii ''media''
      \<and> classify_file L None (Some (ascii ''song.flac'')) = ascii ''media''
      \<and> classify_file L None (Some (ascii ''archive.tar.gz'')) = ascii ''document''
      \<and> classify_file L None (Some (ascii ''png'')) = ascii ''document''
      \<and> classify_file L None None = ascii ''document''
      \<and> classify_file L (Some []) (Some []) = ascii ''document'')"
proof -
  have total: "classify_file L mime_type file_name
      \<in> {ascii ''image'', ascii ''media'', ascii ''document''}"
    by (simp add: classify_file_def classify_by_name_def Let_def)
  have examples:
    "classify_file L (Some (ascii ''image/png'')) None = ascii ''image''
      \<and> classify_file L None (Some (ascii ''movie.MKV'')) = ascii ''media''
      \<and> classify_file L None (Some (ascii ''readme'')) = ascii ''document''
      \<and> classify_file L (Some (ascii ''application/zip'')) (Some (ascii ''archive.zip''))
          = ascii ''document''
      \<and> classify_file L None (Some (ascii ''a.png'')) = ascii ''image''
      \<and> classify_file L (Some (ascii ''application/octet-stream'')) (Some (ascii ''holiday.JPEG''))
          = ascii ''image''
      \<and> classify_file L (Some (ascii ''video/mp4'')) (Some (ascii ''a.png'')) = ascii ''media''
      \<and> classify_file L (Some (ascii ''audio/ogg'')) None = ascii ''media''
      \<and> classify_file L None (Some (ascii ''song.flac'')) = ascii ''media''
      \<and> classify_file L None (Some (ascii ''archive.tar.gz'')) = ascii ''document''
      \<and> classify_file L None (Some (ascii ''png'')) = ascii ''document''
      \<and> classify_file L None None = ascii ''document''
      \<and> classify_file L (Some []) (Some []) = ascii ''document''"
    if h: "lower_on_ascii L"
  proof -
    note low = lower_on_asciiD [OF h]
    have e1: "classify_file L (Some (ascii ''image/png'')) None = ascii ''image''"
      by (simp add: classify_defs)
    have e2: "classify_file L None (Some (ascii ''movie.MKV'')) = ascii ''media''"
      by (simp add: classify_defs low)
    have e3: "classify_file L None (Some (ascii ''readme'')) = ascii ''document''"
      by (simp add: classify_defs)
    have e4: "classify_file L (Some (ascii ''application/zip'')) (Some (ascii ''archive.zip''))
        = ascii ''document''"
      by (simp add: classify_defs low)
    have e5: "classify_file L None (Some (ascii ''a.png'')) = ascii ''image''"
      by (simp add: classify_defs low)
    have e6: "classify_file L (Some (ascii ''application/octet-stream''))
        (Some (ascii ''holiday.JPEG'')) = ascii ''image''"
      by (simp add: classify_defs low)
    have e7: "classify_file L (Some (ascii ''video/mp4'')) (Some (ascii ''a.png'')) = ascii ''media''"
      by (simp add: classify_defs)
    have e8: "classify_file L (Some (ascii ''audio/ogg'')) None = ascii ''media''"
      by (simp add: classify_defs)
    have e9: "classify_file L None (Some (ascii ''song.flac'')) = ascii ''media''"
      by (simp add: classify_defs low)
    have e10: "classify_file L None (Some (ascii ''archive.tar.gz'')) = ascii ''document''"
      by (simp add: classify_defs low)
    have e11: "classify_file L None (Some (ascii ''png'')) = ascii ''document''"
      by (simp add: classify_defs)
    have e12: "classify_file L None None = ascii ''document''"
      by (simp add: classify_defs)
    have e13: "classify_file L (Some []) (Some []) = ascii ''document''"
      by (simp add: classify_defs)
    from e1 e2 e3 e4 e5 e6 e7 e8 e9 e10 e11 e12 e13 show ?thesis by blast
  qed
  from classify_file_spec total examples show ?thesis by blast
qed

theorem classify_file_total_first_match_witness:
  "lower_on_ascii sample_lower
   \<and> classify_file sample_lower None (Some (ascii ''movie.MKV'')) = ascii ''media''
   \<and> classify_file sample_lower None (Some (ascii ''a.png'')) = ascii ''image''
   \<and> classify_file sample_lower None (Some (ascii ''clip.m'' @ [8490] @ ascii ''v''))
       = ascii ''media''
   \<and> classify_file sample_lower None (Some (ascii ''clip.m'' @ [8490] @ ascii ''v''))
       = category_name (classify_spec sample_lower None (Some (ascii ''clip.m'' @ [8490] @ ascii ''v'')))"
proof -
  have kelvin: "classify_file sample_lower None (Some (ascii ''clip.m'' @ [8490] @ ascii ''v''))
      = ascii ''media''"
    by (simp add: classify_defs sample_lower_def sample_lower_cp_def)
  show ?thesis
    using classify_file_total_first_match [of sample_lower None
        "Some (ascii ''clip.m'' @ [8490] @ ascii ''v'')"]
      sample_lower_on_ascii kelvin
    by blast
qed

section \<open>Properties of the size formatter\<close>

lemma floor_rat_numeral [simp]: "\<lfloor>numeral a / numeral b :: rat\<rfloor> = numeral a div numeral b"
  using floor_divide_of_int_eq [of "numeral a" "numeral b", where ?'a = rat] by simp
















section \<open>Properties of the ingest handler\<close>













end
